theory Spec2Isabelle
  imports Main
begin

section \<open>Python strings\<close>

text \<open>
  The pipeline of \<^verbatim>\<open>main_without_db.py\<close> works on Python \<^verbatim>\<open>str\<close> values. They are
  modelled as HOL strings, a character standing for a code point below 256; \<^verbatim>\<open>len\<close> is
  \<^const>\<open>length\<close> and a slice \<^verbatim>\<open>s[:n]\<close> is \<^term>\<open>take n s\<close>. On these code points
  \<^verbatim>\<open>str.lower\<close> changes the letters A to Z and the upper case letters U+00C0 to U+00DE
  (but not the sign U+00D7), each to the code point 32 above it, and \<^verbatim>\<open>str.strip\<close> removes
  the characters of \<^verbatim>\<open>str.isspace\<close>: U+0009 to U+000D, U+001C to U+0020, U+0085 and U+00A0.
\<close>

definition ascii_uppercase :: string where
  "ascii_uppercase = ''ABCDEFGHIJKLMNOPQRSTUVWXYZ''"

definition ascii_lowercase :: string where
  "ascii_lowercase = ''abcdefghijklmnopqrstuvwxyz''"

definition latin1_uppercase :: string where
  "latin1_uppercase =
     [CHR 0xC0, CHR 0xC1, CHR 0xC2, CHR 0xC3, CHR 0xC4, CHR 0xC5, CHR 0xC6, CHR 0xC7,
      CHR 0xC8, CHR 0xC9, CHR 0xCA, CHR 0xCB, CHR 0xCC, CHR 0xCD, CHR 0xCE, CHR 0xCF,
      CHR 0xD0, CHR 0xD1, CHR 0xD2, CHR 0xD3, CHR 0xD4, CHR 0xD5, CHR 0xD6,
      CHR 0xD8, CHR 0xD9, CHR 0xDA, CHR 0xDB, CHR 0xDC, CHR 0xDD, CHR 0xDE]"

definition latin1_lowercase :: string where
  "latin1_lowercase =
     [CHR 0xE0, CHR 0xE1, CHR 0xE2, CHR 0xE3, CHR 0xE4, CHR 0xE5, CHR 0xE6, CHR 0xE7,
      CHR 0xE8, CHR 0xE9, CHR 0xEA, CHR 0xEB, CHR 0xEC, CHR 0xED, CHR 0xEE, CHR 0xEF,
      CHR 0xF0, CHR 0xF1, CHR 0xF2, CHR 0xF3, CHR 0xF4, CHR 0xF5, CHR 0xF6,
      CHR 0xF8, CHR 0xF9, CHR 0xFA, CHR 0xFB, CHR 0xFC, CHR 0xFD, CHR 0xFE]"

definition lower_char :: "char \<Rightarrow> char" where
  "lower_char c =
     (case map_of (zip (ascii_uppercase @ latin1_uppercase) (ascii_lowercase @ latin1_lowercase)) c of
        Some l \<Rightarrow> l
      | None \<Rightarrow> c)"

definition py_lower :: "string \<Rightarrow> string" where
  "py_lower s = map lower_char s"

definition py_whitespace :: string where
  "py_whitespace =
     [CHR 0x09, CHR 0x0A, CHR 0x0B, CHR 0x0C, CHR 0x0D,
      CHR 0x1C, CHR 0x1D, CHR 0x1E, CHR 0x1F, CHR 0x20, CHR 0x85, CHR 0xA0]"

definition py_isspace :: "char \<Rightarrow> bool" where
  "py_isspace c = (c \<in> set py_whitespace)"

definition py_strip :: "string \<Rightarrow> string" where
  "py_strip s = rev (dropWhile py_isspace (rev (dropWhile py_isspace s)))"

fun startswith :: "string \<Rightarrow> string \<Rightarrow> bool" where
  "startswith s [] = True"
| "startswith [] (p # ps) = False"
| "startswith (c # cs) (p # ps) = (c = p \<and> startswith cs ps)"

text \<open>\<^verbatim>\<open>sub in s\<close> on strings: \<^verbatim>\<open>sub\<close> occurs in \<^verbatim>\<open>s\<close> at some position.\<close>

fun py_in :: "string \<Rightarrow> string \<Rightarrow> bool" where
  "py_in sub [] = (sub = [])"
| "py_in sub (c # cs) = (startswith (c # cs) sub \<or> py_in sub cs)"

text \<open>\<^verbatim>\<open>str(n)\<close> of a non-negative integer, as in the f-strings \<^verbatim>\<open>f'B{row}'\<close>.\<close>

definition digit_char :: "nat \<Rightarrow> char" where
  "digit_char d = ''0123456789'' ! d"

fun str_nat :: "nat \<Rightarrow> string" where
  "str_nat n = (if n < 10 then [digit_char n] else str_nat (n div 10) @ [digit_char (n mod 10)])"

declare str_nat.simps [simp del]

section \<open>URL Classifier\<close>

definition supported_domains :: "string list" where
  "supported_domains =
     [''youtube.com'', ''youtu.be'',
      ''twitter.com'', ''x.com'',
      ''vimeo.com'',
      ''tiktok.com'',
      ''instagram.com'',
      ''facebook.com'', ''fb.com'',
      ''linkedin.com'',
      ''reddit.com'']"

definition is_supported_video_url :: "string \<Rightarrow> bool" where
  "is_supported_video_url url =
     list_ex (\<lambda>domain. py_in domain (py_lower url)) supported_domains"

section \<open>Exceptions, the log and the collaborators\<close>

text \<open>
  Every function of the pipeline returns a pair: its result, or the exception it raised,
  and the world after it. A \<^verbatim>\<open>try\<close> block is a function of its own (named with the suffix
  \<open>_try\<close>) and the \<^verbatim>\<open>except\<close> clauses are the case distinction on its result.

  The exceptions are the instances of \<^verbatim>\<open>Exception\<close>, which is what the \<^verbatim>\<open>except\<close> clauses
  of the code catch; the code tells \<^verbatim>\<open>SupadataError\<close> from the rest. The string is
  \<^verbatim>\<open>str(e)\<close>. The calls of \<^verbatim>\<open>logging\<close> and the string operations do not raise.
\<close>

datatype py_exception = SupadataError string | Exception string

fun exc_str :: "py_exception \<Rightarrow> string" where
  "exc_str (SupadataError m) = m"
| "exc_str (Exception m) = m"

datatype log_level = INFO | WARNING | ERROR

text \<open>
  The observable effects of a run: the records handed to \<^verbatim>\<open>logging\<close>, and the calls made to
  the three collaborators, in order. A call of \<^verbatim>\<open>sheet.update_acell\<close> is kept with its
  cell label, the value sent and how the call ended (\<^term>\<open>None\<close> when it returned).
\<close>

record world =
  log_records :: "(log_level \<times> string) list"
  acell_calls :: "(string \<times> string \<times> py_exception option) list"
  transcript_calls :: "string list"
  gemini_calls :: "(string \<times> string) list"

text \<open>What \<^verbatim>\<open>supadata.transcript\<close> can return, as \<^verbatim>\<open>get_transcript\<close> tells the shapes apart.\<close>

datatype transcript_response =
    ContentAttr string "string option"
    \<comment> \<open>an object with the attribute \<^verbatim>\<open>content\<close>, and \<^verbatim>\<open>lang\<close> when it has one\<close>
  | ContentKey string "string option"
    \<comment> \<open>a dict with the key \<^verbatim>\<open>content\<close>, and \<^verbatim>\<open>lang\<close> when it has one\<close>
  | PlainStr string
  | Unknown "(string \<times> string) list"
    \<comment> \<open>any other object: the names of \<^verbatim>\<open>dir\<close>, each with \<^verbatim>\<open>str\<close> of its value\<close>

text \<open>The response of \<^verbatim>\<open>generate_content\<close>: \<^verbatim>\<open>response.parsed\<close> is a \<^verbatim>\<open>TranscriptResponse\<close> or \<^verbatim>\<open>None\<close>.\<close>

datatype generate_response = Parsed string | NotParsed

text \<open>
  The collaborators answer as the environment says. An answer may depend on how many
  calls the collaborator has had before, so that one call can fail and the next succeed.
  The instruction text \<^verbatim>\<open>prompt\<close> is imported from a module of its own and is a parameter.
\<close>

record env =
  sheet_get_all_values :: "py_exception + string list list"
  sheet_update_acell :: "nat \<Rightarrow> string \<Rightarrow> string \<Rightarrow> py_exception option"
  supadata_transcript :: "nat \<Rightarrow> string \<Rightarrow> py_exception + transcript_response"
  genai_generate_content :: "nat \<Rightarrow> string \<Rightarrow> string \<Rightarrow> py_exception + generate_response"
  prompt :: string

definition logging :: "log_level \<Rightarrow> string \<Rightarrow> world \<Rightarrow> world" where
  "logging level msg w = w\<lparr>log_records := log_records w @ [(level, msg)]\<rparr>"

definition update_acell :: "env \<Rightarrow> string \<Rightarrow> string \<Rightarrow> world \<Rightarrow> (py_exception + unit) \<times> world" where
  "update_acell e cell v w =
     (let out = sheet_update_acell e (length (acell_calls w)) cell v;
          w' = w\<lparr>acell_calls := acell_calls w @ [(cell, v, out)]\<rparr>
      in case out of None \<Rightarrow> (Inr (), w') | Some ex \<Rightarrow> (Inl ex, w'))"

definition transcript :: "env \<Rightarrow> string \<Rightarrow> world \<Rightarrow> (py_exception + transcript_response) \<times> world" where
  "transcript e url w =
     (supadata_transcript e (length (transcript_calls w)) url,
      w\<lparr>transcript_calls := transcript_calls w @ [url]\<rparr>)"

definition generate_content ::
  "env \<Rightarrow> string \<Rightarrow> string \<Rightarrow> world \<Rightarrow> (py_exception + generate_response) \<times> world" where
  "generate_content e contents system_instruction w =
     (genai_generate_content e (length (gemini_calls w)) contents system_instruction,
      w\<lparr>gemini_calls := gemini_calls w @ [(contents, system_instruction)]\<rparr>)"

section \<open>Transcript Fetcher\<close>

fun join :: "string \<Rightarrow> string list \<Rightarrow> string" where
  "join sep [] = []"
| "join sep [x] = x"
| "join sep (x # y # ys) = x @ sep @ join sep (y # ys)"

text \<open>\<^verbatim>\<open>repr\<close> of a list of attribute names, as the f-string prints \<^verbatim>\<open>attrs\<close>.\<close>

definition repr_names :: "string list \<Rightarrow> string" where
  "repr_names xs = ''['' @ join '', '' (map (\<lambda>x. [CHR 0x27] @ x @ [CHR 0x27]) xs) @ '']''"

text \<open>The loop over the fallback attribute names: the first one the object has.\<close>

fun first_attr :: "string list \<Rightarrow> (string \<times> string) list \<Rightarrow> (string \<times> string) option" where
  "first_attr [] obj = None"
| "first_attr (attr_name # rest) obj =
     (case map_of obj attr_name of
        Some content \<Rightarrow> Some (attr_name, content)
      | None \<Rightarrow> first_attr rest obj)"

definition get_transcript_try ::
  "env \<Rightarrow> string \<Rightarrow> world \<Rightarrow> (py_exception + string option) \<times> world" where
  "get_transcript_try e url w =
     (let w1 = logging INFO (''Getting transcript for URL: '' @ url) w in
      case transcript e url w1 of
        (Inl ex, w2) \<Rightarrow> (Inl ex, w2)
      | (Inr transcript_response, w2) \<Rightarrow>
          (case transcript_response of
             ContentAttr transcript_text lang \<Rightarrow>
               (let detected_lang = (case lang of Some l \<Rightarrow> l | None \<Rightarrow> ''unknown'')
                in (Inr (Some transcript_text),
                    logging INFO (''Transcript retrieved ('' @ str_nat (length transcript_text)
                      @ '' characters, language: '' @ detected_lang @ '')'') w2))
           | ContentKey transcript_text lang \<Rightarrow>
               (let detected_lang = (case lang of Some l \<Rightarrow> l | None \<Rightarrow> ''unknown'')
                in (Inr (Some transcript_text),
                    logging INFO (''Transcript retrieved ('' @ str_nat (length transcript_text)
                      @ '' characters, language: '' @ detected_lang @ '')'') w2))
           | PlainStr s \<Rightarrow>
               (Inr (Some s),
                logging INFO (''Transcript retrieved ('' @ str_nat (length s) @ '' characters)'') w2)
           | Unknown obj \<Rightarrow>
               (let attrs = filter (\<lambda>attr. \<not> startswith attr ''_'') (map fst obj);
                    w3 = logging WARNING
                      (''Unknown transcript object. Available attributes: '' @ repr_names attrs) w2
                in case first_attr [''text'', ''transcript'', ''data'', ''result''] obj of
                     Some (attr_name, content) \<Rightarrow>
                       (Inr (Some content),
                        logging INFO (''Found content in '' @ [CHR 0x27] @ attr_name @ [CHR 0x27]
                          @ '' attribute'') w3)
                   | None \<Rightarrow>
                       (Inr None,
                        logging WARNING ''Could not extract content from transcript object'' w3))))"

definition get_transcript ::
  "env \<Rightarrow> string \<Rightarrow> world \<Rightarrow> (py_exception + string option) \<times> world" where
  "get_transcript e url w =
     (case get_transcript_try e url w of
        (Inr r, w') \<Rightarrow> (Inr r, w')
      | (Inl (SupadataError m), w') \<Rightarrow>
          (Inr None, logging ERROR (''Supadata error for '' @ url @ '': '' @ m) w')
      | (Inl (Exception m), w') \<Rightarrow>
          (Inr None,
           logging ERROR (''Unexpected error getting transcript for '' @ url @ '': '' @ m) w'))"

section \<open>Summarizer\<close>

definition truncation_marker :: string where
  "truncation_marker = ''... [TRUNCATED]''"

definition max_chars :: nat where
  "max_chars = 100000"

text \<open>The content handed to the language model: the transcript, cut when it is too long.\<close>

definition truncate_transcript :: "string \<Rightarrow> string" where
  "truncate_transcript transcript_text =
     (if length transcript_text > max_chars
      then take max_chars transcript_text @ truncation_marker
      else transcript_text)"

definition analyze_with_gemini_try ::
  "env \<Rightarrow> string \<Rightarrow> string \<Rightarrow> world \<Rightarrow> (py_exception + string option) \<times> world" where
  "analyze_with_gemini_try e transcript_text system_prompt w =
     (let w1 = (if length transcript_text > max_chars
                then logging WARNING
                       (''Transcript truncated to '' @ str_nat max_chars @ '' characters'') w
                else w)
      in case generate_content e (truncate_transcript transcript_text) system_prompt w1 of
           (Inl ex, w2) \<Rightarrow> (Inl ex, w2)
         | (Inr (Parsed text), w2) \<Rightarrow>
             (Inr (Some text), logging INFO ''Gemini analysis completed'' w2)
         | (Inr NotParsed, w2) \<Rightarrow>
             (Inl (Exception ([CHR 0x27] @ ''NoneType'' @ [CHR 0x27]
                     @ '' object has no attribute '' @ [CHR 0x27] @ ''text'' @ [CHR 0x27])), w2))"

definition analyze_with_gemini ::
  "env \<Rightarrow> string \<Rightarrow> string \<Rightarrow> world \<Rightarrow> (py_exception + string option) \<times> world" where
  "analyze_with_gemini e transcript_text system_prompt w =
     (case analyze_with_gemini_try e transcript_text system_prompt w of
        (Inr r, w') \<Rightarrow> (Inr r, w')
      | (Inl ex, w') \<Rightarrow>
          (Inr None, logging ERROR (''Gemini analysis failed: '' @ exc_str ex) w'))"

section \<open>Record Scanner\<close>

text \<open>
  A worklist entry: the dict with the keys \<^verbatim>\<open>url\<close> and \<^verbatim>\<open>row\<close> that \<^verbatim>\<open>get_new_urls\<close>
  builds. Both keys are always there, so the two lookups at the head of \<^verbatim>\<open>process_url\<close>
  are field selections.
\<close>

record url_data =
  data_url :: string
  data_row :: nat

text \<open>
  The loop of \<^verbatim>\<open>get_new_urls\<close> over \<^verbatim>\<open>enumerate(all_values, start=1)\<close>: \<open>row_idx\<close> is the
  index of the first row left, \<open>new_urls\<close> the list built so far.
\<close>

fun scan_rows :: "nat \<Rightarrow> string list list \<Rightarrow> url_data list \<Rightarrow> url_data list" where
  "scan_rows row_idx [] new_urls = new_urls"
| "scan_rows row_idx (row # rest) new_urls =
     (if length row = 0 then scan_rows (row_idx + 1) rest new_urls
      else
        let url = (if length row > 0 then py_strip (row ! 0) else '''');
            status = (if length row > 2 then py_strip (row ! 2) else '''')
        in if url = '''' \<or> \<not> is_supported_video_url url
           then scan_rows (row_idx + 1) rest new_urls
           else if status \<in> set [''PROCESSING'', ''COMPLETED'', ''ERROR''] \<or> py_strip status \<noteq> ''''
           then scan_rows (row_idx + 1) rest new_urls
           else scan_rows (row_idx + 1) rest
                  (new_urls @ [\<lparr>data_url = url, data_row = row_idx\<rparr>]))"

definition get_new_urls :: "env \<Rightarrow> world \<Rightarrow> (py_exception + url_data list) \<times> world" where
  "get_new_urls e w =
     (case sheet_get_all_values e of
        Inr all_values \<Rightarrow>
          (let new_urls = scan_rows 1 all_values []
           in (Inr new_urls,
               logging INFO (''Found '' @ str_nat (length new_urls) @ '' new URLs to process'') w))
      | Inl ex \<Rightarrow>
          (Inr [], logging ERROR (''Failed to get URLs from sheet: '' @ exc_str ex) w))"

section \<open>Status Writer\<close>

definition max_cell_chars :: nat where
  "max_cell_chars = 50000"

text \<open>The text sent to column B: the result, cut when it is too long.\<close>

definition truncate_result :: "string \<Rightarrow> string" where
  "truncate_result result =
     (if length result > max_cell_chars
      then take max_cell_chars result @ truncation_marker
      else result)"

definition update_sheet_status_try ::
  "env \<Rightarrow> nat \<Rightarrow> string \<Rightarrow> string \<Rightarrow> world \<Rightarrow> (py_exception + unit) \<times> world" where
  "update_sheet_status_try e row status result w =
     (let w1 =
        (if result \<noteq> '''' then
           (case update_acell e (''B'' @ str_nat row) (truncate_result result) w of
              (Inr _, w') \<Rightarrow> logging INFO (''Updated result in B'' @ str_nat row) w'
            | (Inl ex, w') \<Rightarrow>
                logging ERROR
                  (''Failed to update result in B'' @ str_nat row @ '': '' @ exc_str ex) w')
         else w)
      in case update_acell e (''C'' @ str_nat row) status w1 of
           (Inr _, w') \<Rightarrow>
             (Inr (), logging INFO (''Updated status in C'' @ str_nat row @ '': '' @ status) w')
         | (Inl ex, w') \<Rightarrow>
             (Inr (),
              logging ERROR
                (''Failed to update status in C'' @ str_nat row @ '': '' @ exc_str ex) w'))"

definition update_sheet_status ::
  "env \<Rightarrow> nat \<Rightarrow> string \<Rightarrow> string \<Rightarrow> world \<Rightarrow> (py_exception + unit) \<times> world" where
  "update_sheet_status e row status result w =
     (case update_sheet_status_try e row status result w of
        (Inr u, w') \<Rightarrow> (Inr u, w')
      | (Inl ex, w') \<Rightarrow>
          (Inr (),
           logging ERROR (''Failed to update sheet row '' @ str_nat row @ '': '' @ exc_str ex) w'))"

section \<open>Record Processor\<close>

text \<open>Python's \<^verbatim>\<open>not x\<close> on an optional string: \<^verbatim>\<open>None\<close> and the empty string are false.\<close>

fun falsy :: "string option \<Rightarrow> bool" where
  "falsy None = True"
| "falsy (Some s) = (s = '''')"

definition process_url_try ::
  "env \<Rightarrow> string \<Rightarrow> nat \<Rightarrow> world \<Rightarrow> (py_exception + bool) \<times> world" where
  "process_url_try e url row w =
     (case get_transcript e url w of
        (Inl ex, w1) \<Rightarrow> (Inl ex, w1)
      | (Inr transcript_opt, w1) \<Rightarrow>
          if falsy transcript_opt
          then (Inl (Exception ''Could not retrieve transcript using Supadata''), w1)
          else
            (let transcript_text = the transcript_opt;
                 w2 = logging INFO
                   (''Retrieved transcript ('' @ str_nat (length transcript_text) @ '' characters)'') w1
             in case analyze_with_gemini e transcript_text (prompt e) w2 of
                  (Inl ex, w3) \<Rightarrow> (Inl ex, w3)
                | (Inr analysis_opt, w3) \<Rightarrow>
                    if falsy analysis_opt
                    then (Inl (Exception ''Gemini analysis failed''), w3)
                    else
                      (case update_sheet_status e row ''COMPLETED'' (the analysis_opt) w3 of
                         (Inl ex, w4) \<Rightarrow> (Inl ex, w4)
                       | (Inr _, w4) \<Rightarrow>
                           (Inr True, logging INFO (''Successfully processed URL: '' @ url) w4))))"

definition process_url :: "env \<Rightarrow> url_data \<Rightarrow> world \<Rightarrow> (py_exception + bool) \<times> world" where
  "process_url e ud w =
     (let url = data_url ud;
          row = data_row ud;
          w1 = logging INFO (''Processing URL: '' @ url @ '' (row '' @ str_nat row @ '')'') w
      in case update_sheet_status e row ''PROCESSING'' '''' w1 of
           (Inl ex, w2) \<Rightarrow> (Inl ex, w2)
         | (Inr _, w2) \<Rightarrow>
             (case process_url_try e url row w2 of
                (Inr b, w3) \<Rightarrow> (Inr b, w3)
              | (Inl ex, w3) \<Rightarrow>
                  (let error_msg = ''Error: '' @ exc_str ex;
                       w4 = logging ERROR (''Failed to process '' @ url @ '': '' @ error_msg) w3
                   in case update_sheet_status e row ''ERROR'' error_msg w4 of
                        (Inl ex', w5) \<Rightarrow> (Inl ex', w5)
                      | (Inr _, w5) \<Rightarrow> (Inr False, w5))))"

section \<open>Run Loop\<close>

text \<open>The loop of \<^verbatim>\<open>run\<close> over the worklist, with its two counters.\<close>

fun run_loop :: "env \<Rightarrow> url_data list \<Rightarrow> nat \<Rightarrow> nat \<Rightarrow> world \<Rightarrow> nat \<times> nat \<times> world" where
  "run_loop e [] processed_count error_count w = (processed_count, error_count, w)"
| "run_loop e (ud # rest) processed_count error_count w =
     (case process_url e ud w of
        (Inr b, w') \<Rightarrow>
          if b then run_loop e rest (processed_count + 1) error_count w'
          else run_loop e rest processed_count (error_count + 1) w'
      | (Inl ex, w') \<Rightarrow>
          run_loop e rest processed_count (error_count + 1)
            (logging ERROR
               (''Unexpected error processing '' @ data_url ud @ '': '' @ exc_str ex) w'))"

definition run_try :: "env \<Rightarrow> world \<Rightarrow> (py_exception + unit) \<times> world" where
  "run_try e w =
     (case get_new_urls e w of
        (Inl ex, w1) \<Rightarrow> (Inl ex, w1)
      | (Inr new_urls, w1) \<Rightarrow>
          if new_urls = [] then (Inr (), logging INFO ''No new URLs to process'' w1)
          else
            (case run_loop e new_urls 0 0 w1 of
               (processed_count, error_count, w2) \<Rightarrow>
                 (Inr (),
                  logging INFO
                    (''Processing complete. Success: '' @ str_nat processed_count
                       @ '', Errors: '' @ str_nat error_count) w2)))"

definition run :: "env \<Rightarrow> world \<Rightarrow> (py_exception + unit) \<times> world" where
  "run e w =
     (case run_try e (logging INFO ''Starting video automation pipeline'' w) of
        (Inr u, w') \<Rightarrow> (Inr u, w')
      | (Inl ex, w') \<Rightarrow> (Inr (), logging ERROR (''Pipeline failed: '' @ exc_str ex) w'))"

section \<open>Definitions for the statements\<close>

text \<open>
  The Classifier in the words of the specification: some domain of the fixed allow-list
  is a substring of the lowercased URL.
\<close>

definition allow_list :: "string list" where
  "allow_list =
     [''youtube.com'', ''youtu.be'', ''twitter.com'', ''x.com'', ''vimeo.com'', ''tiktok.com'',
      ''instagram.com'', ''facebook.com'', ''fb.com'', ''linkedin.com'', ''reddit.com'']"

definition is_supported_spec :: "string \<Rightarrow> bool" where
  "is_supported_spec url =
     (\<exists>domain pre suf. domain \<in> set allow_list \<and> py_lower url = pre @ domain @ suf)"

text \<open>
  What one pass of the Scanner's loop does with a row: the entry it appends, or
  \<^term>\<open>None\<close> when the row is skipped. The URL cell and the status cell are read after
  \<^const>\<open>py_strip\<close>, so a status cell of white space only counts as empty.
\<close>

definition row_entry :: "nat \<Rightarrow> string list \<Rightarrow> url_data option" where
  "row_entry row_idx row =
     (if row \<noteq> [] \<and> is_supported_video_url (row ! 0)
         \<and> (length row \<le> 2 \<or> py_strip (row ! 2) = '''')
      then Some \<lparr>data_url = py_strip (row ! 0), data_row = row_idx\<rparr>
      else None)"

text \<open>
  What the Fetcher and the Summarizer return, as functions of the collaborator's answer.
\<close>

definition fetched_text :: "py_exception + transcript_response \<Rightarrow> string option" where
  "fetched_text answer =
     (case answer of
        Inl ex \<Rightarrow> None
      | Inr (ContentAttr t lang) \<Rightarrow> Some t
      | Inr (ContentKey t lang) \<Rightarrow> Some t
      | Inr (PlainStr s) \<Rightarrow> Some s
      | Inr (Unknown obj) \<Rightarrow>
          map_option snd (first_attr [''text'', ''transcript'', ''data'', ''result''] obj))"

definition summary_text :: "py_exception + generate_response \<Rightarrow> string option" where
  "summary_text answer = (case answer of Inr (Parsed text) \<Rightarrow> Some text | _ \<Rightarrow> None)"

definition attempt_writes ::
  "env \<Rightarrow> nat \<Rightarrow> nat \<Rightarrow> string \<Rightarrow> string \<Rightarrow> (string \<times> string \<times> py_exception option) list" where
  "attempt_writes e n row status result =
     [(''C'' @ str_nat row, ''PROCESSING'',
       sheet_update_acell e n (''C'' @ str_nat row) ''PROCESSING''),
      (''B'' @ str_nat row, truncate_result result,
       sheet_update_acell e (n + 1) (''B'' @ str_nat row) (truncate_result result)),
      (''C'' @ str_nat row, status,
       sheet_update_acell e (n + 2) (''C'' @ str_nat row) status)]"

text \<open>The record \<^verbatim>\<open>logging\<close> gets for one cell write, by how the call ended.\<close>

definition write_log :: "string \<Rightarrow> string \<Rightarrow> py_exception option \<Rightarrow> log_level \<times> string" where
  "write_log ok_msg fail_msg out =
     (case out of None \<Rightarrow> (INFO, ok_msg) | Some ex \<Rightarrow> (ERROR, fail_msg @ exc_str ex))"

text \<open>The cell writes attempted so far, and the status values sent to column C of a row.\<close>

definition cell_writes :: "world \<Rightarrow> (string \<times> string) list" where
  "cell_writes w = map (\<lambda>(cell, v, out). (cell, v)) (acell_calls w)"

definition status_writes :: "nat \<Rightarrow> world \<Rightarrow> string list" where
  "status_writes row w =
     map snd (filter (\<lambda>(cell, v). cell = ''C'' @ str_nat row) (cell_writes w))"

text \<open>Concrete collaborators for the examples.\<close>

definition empty_world :: world where
  "empty_world = \<lparr>log_records = [], acell_calls = [], transcript_calls = [], gemini_calls = []\<rparr>"

definition demo_env :: env where
  "demo_env =
     \<lparr>sheet_get_all_values = Inr [[''https://youtu.be/abc'', '''', '''']],
      sheet_update_acell = (\<lambda>n cell v. None),
      supadata_transcript = (\<lambda>n url. Inr (PlainStr ''hello'')),
      genai_generate_content = (\<lambda>n contents system_instruction. Inr (Parsed ''summary'')),
      prompt = ''Summarize''\<rparr>"

definition quota_env :: env where
  "quota_env = demo_env\<lparr>sheet_update_acell := (\<lambda>n cell v. Some (Exception ''quota exceeded''))\<rparr>"

definition demo_entry :: url_data where
  "demo_entry = \<lparr>data_url = ''https://youtu.be/abc'', data_row = 1\<rparr>"



section \<open>Strings: substring test and stripping\<close>

lemma startswith_iff: "startswith s p \<longleftrightarrow> (\<exists>suf. s = p @ suf)"
  by (induction s p rule: startswith.induct) auto

lemma py_in_iff: "py_in sub s \<longleftrightarrow> (\<exists>pre suf. s = pre @ sub @ suf)"
proof (induction s)
  case Nil
  then show ?case by auto
next
  case (Cons c cs)
  show ?case
  proof
    assume "py_in sub (c # cs)"
    then consider "startswith (c # cs) sub" | "py_in sub cs" by auto
    then show "\<exists>pre suf. c # cs = pre @ sub @ suf"
    proof cases
      case 1
      then obtain suf where "c # cs = sub @ suf" using startswith_iff by blast
      then have "c # cs = [] @ sub @ suf" by simp
      then show ?thesis by blast
    next
      case 2
      then obtain pre suf where "cs = pre @ sub @ suf" using Cons.IH by blast
      then have "c # cs = (c # pre) @ sub @ suf" by simp
      then show ?thesis by blast
    qed
  next
    assume "\<exists>pre suf. c # cs = pre @ sub @ suf"
    then obtain pre suf where e: "c # cs = pre @ sub @ suf" by blast
    show "py_in sub (c # cs)"
    proof (cases pre)
      case Nil
      with e have "startswith (c # cs) sub" using startswith_iff by auto
      then show ?thesis by simp
    next
      case (Cons p ps)
      with e have "cs = ps @ sub @ suf" by simp
      then have "py_in sub cs" using Cons.IH by blast
      then show ?thesis by simp
    qed
  qed
qed

lemma strip_decompose:
  "\<exists>a b. s = a @ py_strip s @ b \<and> (\<forall>c\<in>set a. py_isspace c) \<and> (\<forall>c\<in>set b. py_isspace c)"
proof -
  define u where "u = dropWhile py_isspace s"
  define v where "v = dropWhile py_isspace (rev u)"
  have 1: "s = takeWhile py_isspace s @ u" by (simp add: u_def)
  have "rev u = takeWhile py_isspace (rev u) @ v" by (simp add: v_def)
  then have "rev (rev u) = rev (takeWhile py_isspace (rev u) @ v)" by simp
  then have 2: "u = rev v @ rev (takeWhile py_isspace (rev u))" by simp
  have 3: "py_strip s = rev v" by (simp add: py_strip_def u_def v_def)
  have "s = takeWhile py_isspace s @ py_strip s @ rev (takeWhile py_isspace (rev u))"
    using 1 2 3 by simp
  moreover have "\<forall>c\<in>set (takeWhile py_isspace s). py_isspace c"
    by (meson set_takeWhileD)
  moreover have "\<forall>c\<in>set (rev (takeWhile py_isspace (rev u))). py_isspace c"
    using set_takeWhileD by fastforce
  ultimately show ?thesis by blast
qed

lemma strip_ends:
  "py_strip s = [] \<or> (\<not> py_isspace (hd (py_strip s)) \<and> \<not> py_isspace (last (py_strip s)))"
proof -
  define u where "u = dropWhile py_isspace s"
  define v where "v = dropWhile py_isspace (rev u)"
  have 3: "py_strip s = rev v" by (simp add: py_strip_def u_def v_def)
  show ?thesis
  proof (cases "v = []")
    case True
    then show ?thesis using 3 by simp
  next
    case False
    then have hv: "\<not> py_isspace (hd v)" unfolding v_def by (rule hd_dropWhile)
    have "rev u = takeWhile py_isspace (rev u) @ v" by (simp add: v_def)
    then have "rev (rev u) = rev (takeWhile py_isspace (rev u) @ v)" by simp
    then have 2: "u = rev v @ rev (takeWhile py_isspace (rev u))" by simp
    then have "u \<noteq> []" using False by auto
    then have "\<not> py_isspace (hd u)" unfolding u_def by (rule hd_dropWhile)
    moreover have "hd u = hd (rev v)" using 2 False by (metis hd_append2 rev_is_Nil_conv)
    ultimately have "\<not> py_isspace (hd (rev v))" by simp
    moreover have "last (rev v) = hd v" using False by (simp add: last_rev)
    ultimately show ?thesis using 3 hv by simp
  qed
qed

lemma strip_idem: "py_strip (py_strip s) = py_strip s"
proof (cases "py_strip s = []")
  case True
  have "py_strip [] = []" by (simp add: py_strip_def)
  with True show ?thesis by simp
next
  case False
  define t where "t = py_strip s"
  have h: "\<not> py_isspace (hd t)" and l: "\<not> py_isspace (last t)" and ne: "t \<noteq> []"
    using strip_ends [of s] False by (auto simp: t_def)
  have "dropWhile py_isspace t = t" using h ne by (cases t) auto
  moreover have "dropWhile py_isspace (rev t) = rev t"
    using l ne by (cases "rev t") (auto simp: last_rev [symmetric] hd_rev)
  ultimately have "py_strip t = t" by (simp add: py_strip_def)
  then show ?thesis by (simp add: t_def)
qed

lemma strip_unpadded:
  assumes "s \<noteq> []" "\<not> py_isspace (hd s)" "\<not> py_isspace (last s)"
  shows "py_strip s = s"
proof -
  have "dropWhile py_isspace s = s" using assms(1,2) by (cases s) auto
  moreover have "dropWhile py_isspace (rev s) = rev s"
    using assms(1,3) by (cases "rev s") (auto simp: last_rev [symmetric] hd_rev)
  ultimately show ?thesis by (simp add: py_strip_def)
qed

lemma lower_char_space: "py_isspace (lower_char c) = py_isspace c"
proof (cases "map_of (zip (ascii_uppercase @ latin1_uppercase)
    (ascii_lowercase @ latin1_lowercase)) c")
  case None
  then show ?thesis by (simp add: lower_char_def)
next
  case (Some l)
  then have "(c, l) \<in> set (zip (ascii_uppercase @ latin1_uppercase)
      (ascii_lowercase @ latin1_lowercase))" by (rule map_of_SomeD)
  then have "\<not> py_isspace c \<and> \<not> py_isspace l"
    by (auto simp: ascii_uppercase_def ascii_lowercase_def latin1_uppercase_def
        latin1_lowercase_def py_isspace_def py_whitespace_def)
  then show ?thesis using Some by (simp add: lower_char_def)
qed

lemma startswith_space:
  assumes "sub \<noteq> []" "\<not> py_isspace (hd sub)" "py_isspace c"
  shows "\<not> startswith (c # s) sub"
  using assms by (cases sub) auto

lemma py_in_drop_left:
  assumes "sub \<noteq> []" "\<not> py_isspace (hd sub)" "\<forall>c\<in>set a. py_isspace c"
  shows "py_in sub (a @ s) = py_in sub s"
  using assms(3)
proof (induction a)
  case Nil
  then show ?case by simp
next
  case (Cons c a)
  then have "\<not> startswith (c # a @ s) sub" using startswith_space assms(1,2) by simp
  with Cons show ?case by simp
qed

lemma startswith_drop_right:
  assumes "\<forall>c\<in>set sub. \<not> py_isspace c" "\<forall>c\<in>set b. py_isspace c"
  shows "startswith (s @ b) sub = startswith s sub"
proof
  assume "startswith (s @ b) sub"
  then obtain suf where e: "s @ b = sub @ suf" using startswith_iff by blast
  then obtain us where "(s = sub @ us \<and> us @ b = suf) \<or> (s @ us = sub \<and> b = us @ suf)"
    by (auto simp: append_eq_append_conv2)
  then consider "s = sub @ us" | "s = sub" | "s @ us = sub" "us \<noteq> []" "b = us @ suf"
    by (cases "us = []") auto
  then show "startswith s sub"
  proof cases
    case 1
    then show ?thesis using startswith_iff by blast
  next
    case 2
    then show ?thesis using startswith_iff by auto
  next
    case 3
    then have "hd us \<in> set sub" "hd us \<in> set b" by auto
    then show ?thesis using assms by blast
  qed
next
  assume "startswith s sub"
  then show "startswith (s @ b) sub" using startswith_iff by auto
qed

lemma py_in_drop_right:
  assumes "sub \<noteq> []" "\<forall>c\<in>set sub. \<not> py_isspace c" "\<forall>c\<in>set b. py_isspace c"
  shows "py_in sub (s @ b) = py_in sub s"
proof (induction s)
  case Nil
  have "py_in sub (b @ []) = py_in sub []"
    using assms by (intro py_in_drop_left) auto
  then show ?case by simp
next
  case (Cons c s)
  have "startswith ((c # s) @ b) sub = startswith (c # s) sub"
    using assms(2,3) by (rule startswith_drop_right)
  with Cons show ?case by simp
qed

lemma py_in_strip:
  assumes "sub \<noteq> []" "\<forall>c\<in>set sub. \<not> py_isspace c"
  shows "py_in sub (py_lower (py_strip s)) = py_in sub (py_lower s)"
proof -
  obtain a b where d: "s = a @ py_strip s @ b" "\<forall>c\<in>set a. py_isspace c" "\<forall>c\<in>set b. py_isspace c"
    using strip_decompose by blast
  have "py_lower s = py_lower a @ py_lower (py_strip s) @ py_lower b"
    using d(1) by (metis map_append py_lower_def)
  moreover have "\<forall>c\<in>set (py_lower a). py_isspace c" "\<forall>c\<in>set (py_lower b). py_isspace c"
    using d(2,3) by (auto simp: py_lower_def lower_char_space)
  moreover have "\<not> py_isspace (hd sub)" using assms by (cases sub) auto
  ultimately show ?thesis
    using assms by (simp add: py_in_drop_left py_in_drop_right)
qed

lemma is_supported_strip: "is_supported_video_url (py_strip s) = is_supported_video_url s"
proof -
  have "\<forall>d\<in>set supported_domains. d \<noteq> [] \<and> (\<forall>c\<in>set d. \<not> py_isspace c)"
    by (simp add: supported_domains_def py_isspace_def py_whitespace_def)
  then show ?thesis
    by (auto simp: is_supported_video_url_def list_ex_iff py_in_strip)
qed

lemma not_supported_empty: "\<not> is_supported_video_url ''''"
  by (simp add: is_supported_video_url_def supported_domains_def py_lower_def)

lemma str_nat_digit: "n < 10 \<Longrightarrow> str_nat n = [digit_char n]"
  by (simp add: str_nat.simps)

lemma str_nat_1: "str_nat 1 = ''1''" "str_nat (Suc 0) = ''1''"
  by (simp_all add: str_nat.simps digit_char_def)

section \<open>The Scanner's loop\<close>

lemma strip_Nil: "py_strip '''' = ''''"
  by (simp add: py_strip_def)

lemma scan_rows_step:
  "scan_rows k (row # rest) acc =
     scan_rows (Suc k) rest (acc @ (case row_entry k row of None \<Rightarrow> [] | Some ud \<Rightarrow> [ud]))"
proof (cases "row = []")
  case True
  then show ?thesis by (simp add: row_entry_def)
next
  case False
  have s: "is_supported_video_url (py_strip (row ! 0)) = is_supported_video_url (row ! 0)"
    by (rule is_supported_strip)
  have n: "py_strip (row ! 0) = [] \<Longrightarrow> \<not> is_supported_video_url (row ! 0)"
    using s not_supported_empty by auto
  show ?thesis
  proof (cases "2 < length row")
    case True
    have "py_strip (row ! 2) \<in> set [''PROCESSING'', ''COMPLETED'', ''ERROR''] \<Longrightarrow> py_strip (row ! 2) \<noteq> ''''"
      by auto
    with True False s n show ?thesis
      by (auto simp: row_entry_def Let_def strip_idem)
  next
    case l: False
    with False s n show ?thesis
      by (auto simp: row_entry_def Let_def strip_Nil)
  qed
qed

lemma scan_rows_acc: "scan_rows k rows acc = acc @ scan_rows k rows []"
proof (induction rows arbitrary: k acc)
  case Nil
  then show ?case by simp
next
  case (Cons row rest)
  let ?x = "case row_entry k row of None \<Rightarrow> [] | Some ud \<Rightarrow> [ud]"
  have "scan_rows k (row # rest) acc = scan_rows (Suc k) rest (acc @ ?x)"
    by (rule scan_rows_step)
  also have "\<dots> = (acc @ ?x) @ scan_rows (Suc k) rest []"
    by (rule Cons.IH)
  finally have 1: "scan_rows k (row # rest) acc = acc @ ?x @ scan_rows (Suc k) rest []"
    by simp
  have "scan_rows k (row # rest) [] = scan_rows (Suc k) rest ([] @ ?x)"
    by (rule scan_rows_step)
  also have "\<dots> = ([] @ ?x) @ scan_rows (Suc k) rest []"
    by (rule Cons.IH)
  finally have 2: "scan_rows k (row # rest) [] = ?x @ scan_rows (Suc k) rest []"
    by simp
  show ?case unfolding 1 2 by (rule refl)
qed

lemma scan_rows_Cons:
  "scan_rows k (row # rest) [] =
     (case row_entry k row of None \<Rightarrow> [] | Some ud \<Rightarrow> [ud]) @ scan_rows (Suc k) rest []"
proof -
  let ?x = "case row_entry k row of None \<Rightarrow> [] | Some ud \<Rightarrow> [ud]"
  have "scan_rows k (row # rest) [] = scan_rows (Suc k) rest ([] @ ?x)"
    by (rule scan_rows_step)
  also have "\<dots> = ([] @ ?x) @ scan_rows (Suc k) rest []"
    by (rule scan_rows_acc)
  finally show ?thesis by simp
qed

lemma scan_rows_mem:
  "ud \<in> set (scan_rows k rows []) \<longleftrightarrow> (\<exists>j<length rows. row_entry (k + j) (rows ! j) = Some ud)"
proof (induction rows arbitrary: k)
  case Nil
  then show ?case by simp
next
  case (Cons row rest)
  have "(\<exists>j<length (row # rest). row_entry (k + j) ((row # rest) ! j) = Some ud)
     \<longleftrightarrow> row_entry k row = Some ud \<or> (\<exists>j<length rest. row_entry (Suc k + j) (rest ! j) = Some ud)"
    (is "?L \<longleftrightarrow> ?R")
  proof
    assume ?L
    then obtain j where j: "j < length (row # rest)" "row_entry (k + j) ((row # rest) ! j) = Some ud"
      by blast
    show ?R
    proof (cases j)
      case 0
      with j show ?thesis by simp
    next
      case (Suc i)
      with j have "i < length rest" "row_entry (Suc k + i) (rest ! i) = Some ud" by auto
      then show ?thesis by blast
    qed
  next
    assume ?R
    then show ?L
    proof
      assume "row_entry k row = Some ud"
      then have "0 < length (row # rest) \<and> row_entry (k + 0) ((row # rest) ! 0) = Some ud" by simp
      then show ?L by blast
    next
      assume "\<exists>j<length rest. row_entry (Suc k + j) (rest ! j) = Some ud"
      then obtain j where "j < length rest" "row_entry (Suc k + j) (rest ! j) = Some ud" by blast
      then have "Suc j < length (row # rest) \<and> row_entry (k + Suc j) ((row # rest) ! Suc j) = Some ud"
        by simp
      then show ?L by blast
    qed
  qed
  then show ?case
    using Cons.IH [of "Suc k"]
    by (auto simp: scan_rows_Cons simp del: scan_rows.simps split: option.splits)
qed

lemma row_entry_row: "row_entry k row = Some ud \<Longrightarrow> data_row ud = k"
  by (auto simp: row_entry_def split: if_splits)

lemma scan_rows_sorted:
  "sorted_wrt (<) (map data_row (scan_rows k rows []))
   \<and> (\<forall>ud\<in>set (scan_rows k rows []). k \<le> data_row ud)"
proof (induction rows arbitrary: k)
  case Nil
  then show ?case by simp
next
  case (Cons row rest)
  have ih: "sorted_wrt (<) (map data_row (scan_rows (Suc k) rest []))"
    "\<forall>ud\<in>set (scan_rows (Suc k) rest []). Suc k \<le> data_row ud"
    using Cons.IH [of "Suc k"] by auto
  show ?case
  proof (cases "row_entry k row")
    case None
    then show ?thesis using ih by (auto simp: scan_rows_Cons simp del: scan_rows.simps)
  next
    case (Some ud)
    then have "data_row ud = k" by (rule row_entry_row)
    then show ?thesis using ih Some by (auto simp: scan_rows_Cons simp del: scan_rows.simps)
  qed
qed

lemma get_new_urls_fst:
  "sheet_get_all_values e = Inr all_values \<Longrightarrow>
     fst (get_new_urls e w) = Inr (scan_rows 1 all_values [])"
  by (simp add: get_new_urls_def Let_def)

section \<open>Effects of the components\<close>

lemma logging_fields [simp]:
  "acell_calls (logging l m w) = acell_calls w"
  "transcript_calls (logging l m w) = transcript_calls w"
  "gemini_calls (logging l m w) = gemini_calls w"
  "log_records (logging l m w) = log_records w @ [(l, m)]"
  by (simp_all add: logging_def)

lemma update_acell_eq:
  "update_acell e cell v w =
     (case sheet_update_acell e (length (acell_calls w)) cell v of None \<Rightarrow> Inr () | Some ex \<Rightarrow> Inl ex,
      w\<lparr>acell_calls := acell_calls w @ [(cell, v, sheet_update_acell e (length (acell_calls w)) cell v)]\<rparr>)"
  by (simp add: update_acell_def Let_def split: option.splits)

lemma analyze_with_gemini_calls:
  "gemini_calls (snd (analyze_with_gemini e t p w)) = gemini_calls w @ [(truncate_transcript t, p)]"
  by (simp add: analyze_with_gemini_def analyze_with_gemini_try_def generate_content_def
      split: sum.splits generate_response.splits prod.splits)

lemma update_sheet_status_try_Inr:
  "fst (update_sheet_status_try e row status result w) = Inr ()"
  by (simp add: update_sheet_status_try_def update_acell_eq Let_def split: option.splits prod.splits sum.splits)

lemma update_sheet_status_Inr: "fst (update_sheet_status e row status result w) = Inr ()"
  using update_sheet_status_try_Inr [of e row status result w]
  by (simp add: update_sheet_status_def split: prod.splits sum.splits)

lemma update_sheet_status_eq:
  "update_sheet_status e row status result w = update_sheet_status_try e row status result w"
  using update_sheet_status_try_Inr [of e row status result w]
  by (cases "update_sheet_status_try e row status result w")
     (auto simp: update_sheet_status_def split: sum.splits)

lemma update_sheet_status_result:
  assumes "result \<noteq> ''''"
  shows "snd (update_sheet_status e row status result w) =
     w\<lparr>log_records := log_records w @
          [write_log (''Updated result in B'' @ str_nat row)
             (''Failed to update result in B'' @ str_nat row @ '': '')
             (sheet_update_acell e (length (acell_calls w)) (''B'' @ str_nat row) (truncate_result result)),
           write_log (''Updated status in C'' @ str_nat row @ '': '' @ status)
             (''Failed to update status in C'' @ str_nat row @ '': '')
             (sheet_update_acell e (length (acell_calls w) + 1) (''C'' @ str_nat row) status)],
        acell_calls := acell_calls w @
          [(''B'' @ str_nat row, truncate_result result,
            sheet_update_acell e (length (acell_calls w)) (''B'' @ str_nat row) (truncate_result result)),
           (''C'' @ str_nat row, status,
            sheet_update_acell e (length (acell_calls w) + 1) (''C'' @ str_nat row) status)]\<rparr>"
  using assms
  by (simp add: update_sheet_status_eq update_sheet_status_try_def update_acell_eq Let_def logging_def
      write_log_def split: option.splits)

lemma update_sheet_status_no_result:
  shows "snd (update_sheet_status e row status '''' w) =
     w\<lparr>log_records := log_records w @
          [write_log (''Updated status in C'' @ str_nat row @ '': '' @ status)
             (''Failed to update status in C'' @ str_nat row @ '': '')
             (sheet_update_acell e (length (acell_calls w)) (''C'' @ str_nat row) status)],
        acell_calls := acell_calls w @
          [(''C'' @ str_nat row, status,
            sheet_update_acell e (length (acell_calls w)) (''C'' @ str_nat row) status)]\<rparr>"
  by (simp add: update_sheet_status_eq update_sheet_status_try_def update_acell_eq Let_def logging_def
      write_log_def split: option.splits)

lemma get_transcript_try_fst:
  "fst (get_transcript_try e url w) =
     (case supadata_transcript e (length (transcript_calls w)) url of
        Inl ex \<Rightarrow> Inl ex | Inr r \<Rightarrow> Inr (fetched_text (Inr r)))"
  by (simp add: get_transcript_try_def transcript_def fetched_text_def Let_def
      split: sum.splits transcript_response.splits option.splits prod.splits)

lemma get_transcript_try_effect:
  "acell_calls (snd (get_transcript_try e url w)) = acell_calls w
   \<and> gemini_calls (snd (get_transcript_try e url w)) = gemini_calls w
   \<and> transcript_calls (snd (get_transcript_try e url w)) = transcript_calls w @ [url]"
  by (simp add: get_transcript_try_def transcript_def Let_def
      split: sum.splits transcript_response.splits option.splits prod.splits)

lemma get_transcript_fst:
  "fst (get_transcript e url w) =
     Inr (fetched_text (supadata_transcript e (length (transcript_calls w)) url))"
  using get_transcript_try_fst [of e url w]
  by (cases "get_transcript_try e url w")
     (auto simp: get_transcript_def fetched_text_def split: sum.splits py_exception.splits)

lemma get_transcript_effect:
  "acell_calls (snd (get_transcript e url w)) = acell_calls w
   \<and> gemini_calls (snd (get_transcript e url w)) = gemini_calls w
   \<and> transcript_calls (snd (get_transcript e url w)) = transcript_calls w @ [url]"
  using get_transcript_try_effect [of e url w]
  by (cases "get_transcript_try e url w")
     (auto simp: get_transcript_def split: sum.splits py_exception.splits)

lemma analyze_with_gemini_fst:
  "fst (analyze_with_gemini e t p w) =
     Inr (summary_text (genai_generate_content e (length (gemini_calls w)) (truncate_transcript t) p))"
  by (simp add: analyze_with_gemini_def analyze_with_gemini_try_def generate_content_def
      summary_text_def split: sum.splits generate_response.splits prod.splits)

lemma analyze_with_gemini_effect:
  "acell_calls (snd (analyze_with_gemini e t p w)) = acell_calls w
   \<and> transcript_calls (snd (analyze_with_gemini e t p w)) = transcript_calls w
   \<and> gemini_calls (snd (analyze_with_gemini e t p w)) = gemini_calls w @ [(truncate_transcript t, p)]"
  by (simp add: analyze_with_gemini_def analyze_with_gemini_try_def generate_content_def
      split: sum.splits generate_response.splits prod.splits)

lemma update_sheet_status_pair:
  "\<exists>w'. update_sheet_status e row status result w = (Inr (), w')"
  using update_sheet_status_Inr [of e row status result w]
  by (cases "update_sheet_status e row status result w") auto

lemma update_sheet_status_effect:
  "acell_calls (snd (update_sheet_status e row status result w)) =
     acell_calls w @
       (if result = '''' then []
        else [(''B'' @ str_nat row, truncate_result result,
               sheet_update_acell e (length (acell_calls w)) (''B'' @ str_nat row) (truncate_result result))]) @
       [(''C'' @ str_nat row, status,
         sheet_update_acell e (length (acell_calls w) + (if result = '''' then 0 else 1))
           (''C'' @ str_nat row) status)]
   \<and> transcript_calls (snd (update_sheet_status e row status result w)) = transcript_calls w
   \<and> gemini_calls (snd (update_sheet_status e row status result w)) = gemini_calls w"
proof (cases "result = ''''")
  case True
  then show ?thesis by (simp add: update_sheet_status_no_result)
next
  case False
  then show ?thesis by (simp add: update_sheet_status_result)
qed

lemma process_url_char:
  fixes e :: env and ud :: url_data and w :: world
  defines "tr \<equiv> fetched_text (supadata_transcript e (length (transcript_calls w)) (data_url ud))"
  defines "an \<equiv> summary_text (genai_generate_content e (length (gemini_calls w))
                   (truncate_transcript (the tr)) (prompt e))"
  defines "r \<equiv> process_url e ud w"
  shows "fst r = Inr (\<not> falsy tr \<and> \<not> falsy an)
    \<and> acell_calls (snd r) = acell_calls w @
        attempt_writes e (length (acell_calls w)) (data_row ud)
          (if falsy tr \<or> falsy an then ''ERROR'' else ''COMPLETED'')
          (if falsy tr then ''Error: Could not retrieve transcript using Supadata''
           else if falsy an then ''Error: Gemini analysis failed'' else the an)
    \<and> transcript_calls (snd r) = transcript_calls w @ [data_url ud]
    \<and> gemini_calls (snd r) = gemini_calls w @
        (if falsy tr then [] else [(truncate_transcript (the tr), prompt e)])"
proof -
  define url where "url = data_url ud"
  define row where "row = data_row ud"
  note ur = url_def [symmetric] row_def [symmetric]
  define w1 where "w1 = logging INFO (''Processing URL: '' @ url @ '' (row '' @ str_nat row @ '')'') w"
  obtain w2 where u1: "update_sheet_status e row ''PROCESSING'' '''' w1 = (Inr (), w2)"
    using update_sheet_status_pair by blast
  have e2: "acell_calls w2 = acell_calls w @ [(''C'' @ str_nat row, ''PROCESSING'',
         sheet_update_acell e (length (acell_calls w)) (''C'' @ str_nat row) ''PROCESSING'')]"
    "transcript_calls w2 = transcript_calls w" "gemini_calls w2 = gemini_calls w"
    using update_sheet_status_effect [of e row "''PROCESSING''" "''''" w1] u1
    by (simp_all add: w1_def)
  obtain w3 where g: "get_transcript e url w2 = (Inr tr, w3)"
    using get_transcript_fst [of e url w2] e2(2)
    by (cases "get_transcript e url w2") (auto simp: tr_def url_def)
  have e3: "acell_calls w3 = acell_calls w2" "transcript_calls w3 = transcript_calls w @ [url]"
    "gemini_calls w3 = gemini_calls w"
    using get_transcript_effect [of e url w2] g e2 by auto
  have r_eq: "r = (case process_url_try e url row w2 of
                (Inr b, w3) \<Rightarrow> (Inr b, w3)
              | (Inl ex, w3) \<Rightarrow>
                  (let error_msg = ''Error: '' @ exc_str ex;
                       w4 = logging ERROR (''Failed to process '' @ url @ '': '' @ error_msg) w3
                   in case update_sheet_status e row ''ERROR'' error_msg w4 of
                        (Inl ex', w5) \<Rightarrow> (Inl ex', w5)
                      | (Inr _, w5) \<Rightarrow> (Inr False, w5)))"
    using u1 unfolding w1_def url_def row_def
    by (simp add: r_def process_url_def Let_def)
  have err: "fst r = Inr False \<and>
      acell_calls (snd r) = acell_calls w @ attempt_writes e (length (acell_calls w)) row ''ERROR'' (''Error: '' @ m)
      \<and> transcript_calls (snd r) = transcript_calls wx \<and> gemini_calls (snd r) = gemini_calls wx"
    if p: "process_url_try e url row w2 = (Inl (Exception m), wx)"
      and a: "acell_calls wx = acell_calls w2"
    for m wx
  proof -
    define w4 where "w4 = logging ERROR (''Failed to process '' @ url @ '': '' @ ''Error: '' @ m) wx"
    obtain w5 where u5: "update_sheet_status e row ''ERROR'' (''Error: '' @ m) w4 = (Inr (), w5)"
      using update_sheet_status_pair by blast
    have "r = (Inr False, w5)"
      using p u5 by (simp add: r_eq Let_def w4_def)
    moreover have "acell_calls w5 = acell_calls w @ attempt_writes e (length (acell_calls w)) row ''ERROR'' (''Error: '' @ m)"
      "transcript_calls w5 = transcript_calls wx" "gemini_calls w5 = gemini_calls wx"
      using update_sheet_status_effect [of e row "''ERROR''" "''Error: '' @ m" w4] u5 a e2(1)
      by (auto simp: w4_def attempt_writes_def)
    ultimately show ?thesis by simp
  qed
  show ?thesis
  proof (cases "falsy tr")
    case True
    then have "process_url_try e url row w2 =
        (Inl (Exception ''Could not retrieve transcript using Supadata''), w3)"
      by (simp add: process_url_try_def g)
    from err [OF this e3(1)] True e3 show ?thesis
      by (simp add: row_def url_def)
  next
    case False
    define w3' where "w3' = logging INFO
       (''Retrieved transcript ('' @ str_nat (length (the tr)) @ '' characters)'') w3"
    obtain w4 where s: "analyze_with_gemini e (the tr) (prompt e) w3' = (Inr an, w4)"
      using analyze_with_gemini_fst [of e "the tr" "prompt e" w3'] e3(3)
      by (cases "analyze_with_gemini e (the tr) (prompt e) w3'") (auto simp: an_def w3'_def)
    have e4: "acell_calls w4 = acell_calls w2" "transcript_calls w4 = transcript_calls w @ [url]"
      "gemini_calls w4 = gemini_calls w @ [(truncate_transcript (the tr), prompt e)]"
      using analyze_with_gemini_effect [of e "the tr" "prompt e" w3'] s e3
      by (auto simp: w3'_def)
    show ?thesis
    proof (cases "falsy an")
      case True
      then have "process_url_try e url row w2 = (Inl (Exception ''Gemini analysis failed''), w4)"
        using False s unfolding w3'_def by (simp add: process_url_try_def g Let_def)
      from err [OF this e4(1)] True False e4 show ?thesis
        by (simp add: row_def url_def)
    next
      case an_ok: False
      obtain w5 where u5: "update_sheet_status e row ''COMPLETED'' (the an) w4 = (Inr (), w5)"
        using update_sheet_status_pair by blast
      have ne: "the an \<noteq> ''''" using an_ok by (cases an) auto
      have p: "process_url_try e url row w2 =
          (Inr True, logging INFO (''Successfully processed URL: '' @ url) w5)"
        using False an_ok s u5 unfolding w3'_def by (simp add: process_url_try_def g Let_def)
      have e5: "acell_calls w5 = acell_calls w @ attempt_writes e (length (acell_calls w)) row ''COMPLETED'' (the an)"
        "transcript_calls w5 = transcript_calls w4" "gemini_calls w5 = gemini_calls w4"
        using update_sheet_status_effect [of e row "''COMPLETED''" "the an" w4] u5 e4 e2(1) ne
        by (auto simp: attempt_writes_def)
      have "r = (Inr True, logging INFO (''Successfully processed URL: '' @ url) w5)"
        using p by (simp add: r_eq)
      with e5 e4 False an_ok show ?thesis
        by (auto simp: row_def url_def)
    qed
  qed
qed

section \<open>One attempt of the Processor, and the loop over the worklist\<close>

lemma cell_writes_attempt:
  "acell_calls w' = acell_calls w @ attempt_writes e n row status result \<Longrightarrow>
   cell_writes w' =
     cell_writes w @
       [(''C'' @ str_nat row, ''PROCESSING''), (''B'' @ str_nat row, truncate_result result),
        (''C'' @ str_nat row, status)]"
  by (simp add: cell_writes_def attempt_writes_def)

lemma status_writes_attempt:
  "cell_writes w' =
     cell_writes w @
       [(''C'' @ str_nat row, ''PROCESSING''), (''B'' @ str_nat row, result),
        (''C'' @ str_nat row, status)] \<Longrightarrow>
   status_writes row w' = status_writes row w @ [''PROCESSING'', status]"
  by (simp add: status_writes_def)

lemma truncate_result_short: "length result \<le> 50000 \<Longrightarrow> truncate_result result = result"
  by (simp add: truncate_result_def max_cell_chars_def)

lemma falsy_iff: "\<not> falsy x \<longleftrightarrow> (\<exists>t. x = Some t \<and> t \<noteq> '''')"
  by (cases x) auto





section \<open>URL Classifier: the allow-list match\<close>

text \<open>
  Claim C9. For every string, \<^const>\<open>is_supported_video_url\<close> is true exactly when the
  lowercased URL contains a domain of the fixed allow-list as a substring. The match does
  not see letter case: two URLs with the same lowercase form get the same verdict. The
  function is a total predicate of the URL alone: it returns a Boolean for every string
  and takes no \<^typ>\<open>world\<close>.
\<close>

theorem is_supported_video_url_iff:
  "(is_supported_video_url url \<longleftrightarrow> is_supported_spec url)
   \<and> (py_lower url = py_lower url' \<longrightarrow> is_supported_video_url url = is_supported_video_url url')"
proof -
  have "supported_domains = allow_list"
    by (simp add: supported_domains_def allow_list_def)
  then have "is_supported_video_url url \<longleftrightarrow> is_supported_spec url"
    unfolding is_supported_video_url_def is_supported_spec_def list_ex_iff py_in_iff
    by auto
  moreover have "py_lower url = py_lower url' \<longrightarrow> is_supported_video_url url = is_supported_video_url url'"
    by (simp add: is_supported_video_url_def)
  ultimately show ?thesis by blast
qed

theorem is_supported_video_url_iff_witness:
  "is_supported_spec ''HTTPS://YouTu.BE/abc''
   \<and> py_lower ''HTTPS://YouTu.BE/abc'' = py_lower ''https://youtu.be/abc''
   \<and> is_supported_video_url ''HTTPS://YouTu.BE/abc''
   \<and> is_supported_video_url ''https://youtu.be/abc''
   \<and> \<not> is_supported_spec ''https://example.org/video''"
proof -
  have l: "py_lower ''HTTPS://YouTu.BE/abc'' = py_lower ''https://youtu.be/abc''"
    by (simp add: py_lower_def lower_char_def ascii_uppercase_def ascii_lowercase_def latin1_uppercase_def
        latin1_lowercase_def)
  have a: "is_supported_video_url ''https://youtu.be/abc''"
    by (simp add: is_supported_video_url_def supported_domains_def py_lower_def lower_char_def
        ascii_uppercase_def ascii_lowercase_def latin1_uppercase_def
        latin1_lowercase_def)
  have b: "\<not> is_supported_video_url ''https://example.org/video''"
    by (simp add: is_supported_video_url_def supported_domains_def py_lower_def lower_char_def
        ascii_uppercase_def ascii_lowercase_def latin1_uppercase_def
        latin1_lowercase_def)
  show ?thesis
    using l a b
      is_supported_video_url_iff [of "''HTTPS://YouTu.BE/abc''" "''https://youtu.be/abc''"]
      is_supported_video_url_iff [of "''https://example.org/video''" "''https://example.org/video''"]
    by blast
qed

section \<open>Summarizer: the transcript sent to the language model\<close>

text \<open>
  Claim C8. Whatever the collaborator answers, \<^const>\<open>analyze_with_gemini\<close> makes one call
  of \<^verbatim>\<open>generate_content\<close>. Its content is the first 100,000 characters of the transcript
  followed by the marker \<^verbatim>\<open>... [TRUNCATED]\<close> when the transcript is longer than 100,000
  characters, and the transcript itself otherwise. The bound is the Summarizer's own: a
  transcript between the Status Writer's 50,000 and 100,000 characters is sent whole.
\<close>

theorem analyze_with_gemini_sends:
  "gemini_calls (snd (analyze_with_gemini e t p w)) =
     gemini_calls w @
       [(if length t > 100000 then take 100000 t @ ''... [TRUNCATED]'' else t, p)]"
  by (simp add: analyze_with_gemini_calls truncate_transcript_def max_chars_def truncation_marker_def)

theorem analyze_with_gemini_sends_witness:
  "gemini_calls (snd (analyze_with_gemini demo_env (replicate 150000 CHR ''a'') ''P'' empty_world)) =
     [(replicate 100000 CHR ''a'' @ ''... [TRUNCATED]'', ''P'')]
   \<and> gemini_calls (snd (analyze_with_gemini demo_env (replicate 60000 CHR ''a'') ''P'' empty_world)) =
     [(replicate 60000 CHR ''a'', ''P'')]"
  using analyze_with_gemini_sends [of demo_env "replicate 150000 CHR ''a''" "''P''" empty_world]
    analyze_with_gemini_sends [of demo_env "replicate 60000 CHR ''a''" "''P''" empty_world]
  by (simp add: empty_world_def)

section \<open>Truncation happens on strict excess only\<close>

text \<open>
  Claim C10. A transcript of exactly 100,000 characters is sent to the language model as
  it is, and a result of exactly 50,000 characters is sent to column B as it is: neither
  gets the truncation marker.
\<close>

theorem truncation_only_above_limit:
  assumes "length t = 100000" and "length result = 50000"
  shows "gemini_calls (snd (analyze_with_gemini e t p w)) = gemini_calls w @ [(t, p)]
    \<and> cell_writes (snd (update_sheet_status e row status result w')) =
        cell_writes w' @ [(''B'' @ str_nat row, result), (''C'' @ str_nat row, status)]"
proof -
  have "result \<noteq> ''''" using assms(2) by auto
  then have "cell_writes (snd (update_sheet_status e row status result w')) =
      cell_writes w' @ [(''B'' @ str_nat row, truncate_result result), (''C'' @ str_nat row, status)]"
    by (simp add: update_sheet_status_result cell_writes_def)
  moreover have "truncate_result result = result"
    using assms(2) by (simp add: truncate_result_def max_cell_chars_def)
  moreover have "truncate_transcript t = t"
    using assms(1) by (simp add: truncate_transcript_def max_chars_def)
  ultimately show ?thesis by (simp add: analyze_with_gemini_calls)
qed

theorem truncation_only_above_limit_witness:
  "length (replicate 100000 CHR ''a'') = 100000 \<and> length (replicate 50000 CHR ''b'') = 50000
   \<and> gemini_calls (snd (analyze_with_gemini demo_env (replicate 100000 CHR ''a'') ''P'' empty_world)) =
       [(replicate 100000 CHR ''a'', ''P'')]
   \<and> cell_writes (snd (update_sheet_status demo_env 1 ''COMPLETED'' (replicate 50000 CHR ''b'') empty_world)) =
       [(''B1'', replicate 50000 CHR ''b''), (''C1'', ''COMPLETED'')]"
proof -
  have 1: "length (replicate 100000 CHR ''a'') = 100000" by simp
  have 2: "length (replicate 50000 CHR ''b'') = 50000" by simp
  show ?thesis
    using truncation_only_above_limit [OF 1 2, of demo_env "''P''" empty_world 1 "''COMPLETED''" empty_world]
    by (simp add: empty_world_def cell_writes_def str_nat_1)
qed

section \<open>Status Writer: the length of the persisted result\<close>

text \<open>
  Claim C3. The result is cut to \<^const>\<open>max_cell_chars\<close> characters and the marker is
  appended after the cut, so a result of 60,000 characters reaches column B as the first
  50,000 characters plus the 15 characters of the marker: 50,015 characters, which is
  more than the 50,000 of \<^const>\<open>max_cell_chars\<close>.
\<close>

theorem update_sheet_status_overlong_result:
  "cell_writes (snd (update_sheet_status demo_env 1 ''COMPLETED'' (replicate 60000 CHR ''a'') empty_world)) =
     [(''B1'', replicate 50000 CHR ''a'' @ ''... [TRUNCATED]''), (''C1'', ''COMPLETED'')]
   \<and> acell_calls (snd (update_sheet_status demo_env 1 ''COMPLETED'' (replicate 60000 CHR ''a'') empty_world)) =
     [(''B1'', replicate 50000 CHR ''a'' @ ''... [TRUNCATED]'', None), (''C1'', ''COMPLETED'', None)]
   \<and> length (replicate 50000 CHR ''a'' @ ''... [TRUNCATED]'') = 50015
   \<and> max_cell_chars < length (replicate 50000 CHR ''a'' @ ''... [TRUNCATED]'')"
proof -
  have "replicate 60000 CHR ''a'' \<noteq> ''''" by simp
  then show ?thesis
    by (simp add: update_sheet_status_result cell_writes_def truncate_result_def max_cell_chars_def
        truncation_marker_def empty_world_def demo_env_def str_nat_1)
qed

text \<open>
  What does hold for every result: the text sent to column B is never longer than
  \<^const>\<open>max_cell_chars\<close> plus the length of the marker.
\<close>

lemma truncate_result_length: "length (truncate_result result) \<le> max_cell_chars + 15"
  by (simp add: truncate_result_def truncation_marker_def max_cell_chars_def)

section \<open>Status Writer: the two writes are independent and nothing escapes\<close>

text \<open>
  Claim C6. \<^const>\<open>update_sheet_status\<close> returns normally for every input and every
  behaviour of the sheet. With a non-empty result it calls \<^verbatim>\<open>update_acell\<close> twice, first
  for column B and then for column C, and the call for column C is made whether or not
  the call for column B raised. Each of the two calls leaves one log record: at level
  \<^const>\<open>ERROR\<close>, with the text of the exception, when the call raised. With an empty result
  only the write of column C is made, under the same rule.
\<close>

theorem update_sheet_status_contained:
  "fst (update_sheet_status e row status result w) = Inr ()
   \<and> (result \<noteq> '''' \<longrightarrow>
        acell_calls (snd (update_sheet_status e row status result w)) =
          acell_calls w @
            [(''B'' @ str_nat row, truncate_result result,
              sheet_update_acell e (length (acell_calls w)) (''B'' @ str_nat row)
                (truncate_result result)),
             (''C'' @ str_nat row, status,
              sheet_update_acell e (length (acell_calls w) + 1) (''C'' @ str_nat row) status)]
        \<and> log_records (snd (update_sheet_status e row status result w)) =
          log_records w @
            [write_log (''Updated result in B'' @ str_nat row)
               (''Failed to update result in B'' @ str_nat row @ '': '')
               (sheet_update_acell e (length (acell_calls w)) (''B'' @ str_nat row)
                  (truncate_result result)),
             write_log (''Updated status in C'' @ str_nat row @ '': '' @ status)
               (''Failed to update status in C'' @ str_nat row @ '': '')
               (sheet_update_acell e (length (acell_calls w) + 1) (''C'' @ str_nat row) status)])
   \<and> (result = '''' \<longrightarrow>
        acell_calls (snd (update_sheet_status e row status result w)) =
          acell_calls w @
            [(''C'' @ str_nat row, status,
              sheet_update_acell e (length (acell_calls w)) (''C'' @ str_nat row) status)]
        \<and> log_records (snd (update_sheet_status e row status result w)) =
          log_records w @
            [write_log (''Updated status in C'' @ str_nat row @ '': '' @ status)
               (''Failed to update status in C'' @ str_nat row @ '': '')
               (sheet_update_acell e (length (acell_calls w)) (''C'' @ str_nat row) status)])"
proof (cases "result = ''''")
  case True
  then show ?thesis
    by (simp add: update_sheet_status_Inr update_sheet_status_no_result)
next
  case False
  then show ?thesis
    by (simp add: update_sheet_status_Inr update_sheet_status_result)
qed

text \<open>
  The example: every cell write raises. The Status Writer still returns, has tried
  column B and then column C, and has logged both failures.
\<close>

theorem update_sheet_status_contained_witness:
  "fst (update_sheet_status quota_env 1 ''COMPLETED'' ''summary'' empty_world) = Inr ()
   \<and> ''summary'' \<noteq> ''''
   \<and> acell_calls (snd (update_sheet_status quota_env 1 ''COMPLETED'' ''summary'' empty_world)) =
       [(''B1'', ''summary'', Some (Exception ''quota exceeded'')),
        (''C1'', ''COMPLETED'', Some (Exception ''quota exceeded''))]
   \<and> log_records (snd (update_sheet_status quota_env 1 ''COMPLETED'' ''summary'' empty_world)) =
       [(ERROR, ''Failed to update result in B1: quota exceeded''),
        (ERROR, ''Failed to update status in C1: quota exceeded'')]
   \<and> acell_calls (snd (update_sheet_status quota_env 1 ''PROCESSING'' '''' empty_world)) =
       [(''C1'', ''PROCESSING'', Some (Exception ''quota exceeded''))]"
  using update_sheet_status_contained [of quota_env 1 "''COMPLETED''" "''summary''" empty_world]
    update_sheet_status_contained [of quota_env 1 "''PROCESSING''" "''''" empty_world]
  by (simp add: quota_env_def demo_env_def empty_world_def write_log_def truncate_result_def
      max_cell_chars_def str_nat_1)

section \<open>Scanner and Run Loop: a failed read of the sheet\<close>

text \<open>
  Claim C5. When \<^verbatim>\<open>get_all_values\<close> raises, \<^const>\<open>get_new_urls\<close> returns the empty list (not
  a part of the rows) and logs the failure, and \<^const>\<open>run\<close> returns normally: it has logged
  the start, the failure of the read and that there is nothing to process, and it has
  called none of \<^verbatim>\<open>update_acell\<close>, the transcript service and the language model.
\<close>

theorem run_read_failure:
  assumes "sheet_get_all_values e = Inl ex"
  shows "fst (get_new_urls e w) = Inr []
    \<and> log_records (snd (get_new_urls e w)) =
        log_records w @ [(ERROR, ''Failed to get URLs from sheet: '' @ exc_str ex)]
    \<and> fst (run e w) = Inr ()
    \<and> acell_calls (snd (run e w)) = acell_calls w
    \<and> transcript_calls (snd (run e w)) = transcript_calls w
    \<and> gemini_calls (snd (run e w)) = gemini_calls w
    \<and> log_records (snd (run e w)) =
        log_records w @
          [(INFO, ''Starting video automation pipeline''),
           (ERROR, ''Failed to get URLs from sheet: '' @ exc_str ex),
           (INFO, ''No new URLs to process'')]"
  using assms by (simp add: get_new_urls_def run_def run_try_def)

theorem run_read_failure_witness:
  "sheet_get_all_values (demo_env\<lparr>sheet_get_all_values := Inl (Exception ''APIError 503'')\<rparr>)
     = Inl (Exception ''APIError 503'')
   \<and> fst (run (demo_env\<lparr>sheet_get_all_values := Inl (Exception ''APIError 503'')\<rparr>) empty_world)
     = Inr ()
   \<and> acell_calls (snd (run (demo_env\<lparr>sheet_get_all_values := Inl (Exception ''APIError 503'')\<rparr>)
       empty_world)) = []
   \<and> log_records (snd (run (demo_env\<lparr>sheet_get_all_values := Inl (Exception ''APIError 503'')\<rparr>)
       empty_world)) =
       [(INFO, ''Starting video automation pipeline''),
        (ERROR, ''Failed to get URLs from sheet: APIError 503''),
        (INFO, ''No new URLs to process'')]"
proof -
  have h: "sheet_get_all_values (demo_env\<lparr>sheet_get_all_values := Inl (Exception ''APIError 503'')\<rparr>)
     = Inl (Exception ''APIError 503'')" by simp
  show ?thesis
    using h run_read_failure [OF h, of empty_world]
    by (simp add: empty_world_def)
qed

section \<open>Scanner: rows with a status are skipped\<close>

text \<open>
  Claim C4, as stated, fails for a status cell that holds white space only: the Scanner
  reads the status after \<^verbatim>\<open>strip()\<close>, so the row below, whose status cell is one blank,
  is put on the worklist.
\<close>

theorem get_new_urls_blank_status:
  "fst (get_new_urls
         (demo_env\<lparr>sheet_get_all_values := Inr [[''https://youtu.be/abc'', '''', '' '']]\<rparr>)
         empty_world)
     = Inr [\<lparr>data_url = ''https://youtu.be/abc'', data_row = 1\<rparr>]
   \<and> [''https://youtu.be/abc'', '''', '' ''] ! 2 \<noteq> ''''"
proof -
  have "row_entry 1 [''https://youtu.be/abc'', '''', '' '']
      = Some \<lparr>data_url = ''https://youtu.be/abc'', data_row = 1\<rparr>"
    by (simp add: row_entry_def py_strip_def py_isspace_def py_whitespace_def
        is_supported_video_url_def supported_domains_def py_lower_def lower_char_def
        ascii_uppercase_def ascii_lowercase_def latin1_uppercase_def
        latin1_lowercase_def)
  then have "scan_rows 1 [[''https://youtu.be/abc'', '''', '' '']] []
      = [\<lparr>data_url = ''https://youtu.be/abc'', data_row = 1\<rparr>]"
    by (simp add: scan_rows_Cons del: scan_rows.simps(2))
  then show ?thesis by (simp add: get_new_urls_fst)
qed

text \<open>
  Claim C4, amended. For every row whose status cell holds at least one character that
  is not white space (any such value, not only the three labels), the worklist has no
  entry for that row, whatever its URL cell holds.
\<close>

theorem get_new_urls_skips_status:
  assumes "sheet_get_all_values e = Inr all_values"
    and "i < length all_values"
    and "2 < length (all_values ! i)"
    and "py_strip (all_values ! i ! 2) \<noteq> ''''"
  shows "\<exists>worklist. fst (get_new_urls e w) = Inr worklist \<and> i + 1 \<notin> data_row ` set worklist"
proof -
  have "i + 1 \<notin> data_row ` set (scan_rows 1 all_values [])"
  proof
    assume "i + 1 \<in> data_row ` set (scan_rows 1 all_values [])"
    then obtain ud where ud: "ud \<in> set (scan_rows 1 all_values [])" "data_row ud = i + 1"
      by auto
    then obtain j where j: "j < length all_values" "row_entry (1 + j) (all_values ! j) = Some ud"
      using scan_rows_mem by blast
    then have "data_row ud = 1 + j" by (simp add: row_entry_row)
    with ud(2) have "j = i" by simp
    with j(2) assms(3,4) show False
      by (simp add: row_entry_def split: if_splits)
  qed
  then show ?thesis using assms(1) by (simp add: get_new_urls_fst)
qed

theorem get_new_urls_skips_status_witness:
  "sheet_get_all_values
      (demo_env\<lparr>sheet_get_all_values := Inr [[''https://youtu.be/abc'', '''', ''seen by Ann'']]\<rparr>)
     = Inr [[''https://youtu.be/abc'', '''', ''seen by Ann'']]
   \<and> (0::nat) < length [[''https://youtu.be/abc'', '''', ''seen by Ann'']]
   \<and> 2 < length ([[''https://youtu.be/abc'', '''', ''seen by Ann'']] ! 0)
   \<and> py_strip ([[''https://youtu.be/abc'', '''', ''seen by Ann'']] ! 0 ! 2) \<noteq> ''''
   \<and> (\<exists>worklist.
        fst (get_new_urls
              (demo_env\<lparr>sheet_get_all_values := Inr [[''https://youtu.be/abc'', '''', ''seen by Ann'']]\<rparr>)
              empty_world) = Inr worklist
        \<and> 0 + 1 \<notin> data_row ` set worklist)"
proof -
  let ?rows = "[[''https://youtu.be/abc'', '''', ''seen by Ann'']]"
  let ?e = "demo_env\<lparr>sheet_get_all_values := Inr ?rows\<rparr>"
  have 1: "sheet_get_all_values ?e = Inr ?rows" by simp
  have 2: "0 < length ?rows" by simp
  have 3: "2 < length (?rows ! 0)" by simp
  have 4: "py_strip (?rows ! 0 ! 2) \<noteq> ''''"
    by (simp add: py_strip_def py_isspace_def py_whitespace_def)
  show ?thesis
    using 1 2 3 4 get_new_urls_skips_status [OF 1 2 3 4, of empty_world] by blast
qed

text \<open>
  White space is what \<^verbatim>\<open>str.strip\<close> removes, not the blank alone: a status cell that holds
  only a no-break space (U+00A0) is read as empty as well, and its row is listed.
\<close>

lemma get_new_urls_nbsp_status:
  "fst (get_new_urls
         (demo_env\<lparr>sheet_get_all_values := Inr [[''https://youtu.be/abc'', '''', [CHR 0xA0]]]\<rparr>)
         empty_world)
     = Inr [\<lparr>data_url = ''https://youtu.be/abc'', data_row = 1\<rparr>]"
proof -
  have "row_entry 1 [''https://youtu.be/abc'', '''', [CHR 0xA0]]
      = Some \<lparr>data_url = ''https://youtu.be/abc'', data_row = 1\<rparr>"
    by (simp add: row_entry_def py_strip_def py_isspace_def py_whitespace_def
        is_supported_video_url_def supported_domains_def py_lower_def lower_char_def
        ascii_uppercase_def ascii_lowercase_def latin1_uppercase_def latin1_lowercase_def)
  then have "scan_rows 1 [[''https://youtu.be/abc'', '''', [CHR 0xA0]]] []
      = [\<lparr>data_url = ''https://youtu.be/abc'', data_row = 1\<rparr>]"
    by (simp add: scan_rows_Cons del: scan_rows.simps(2))
  then show ?thesis by (simp add: get_new_urls_fst)
qed

section \<open>Scanner: eligible rows are listed, in row order\<close>

text \<open>
  Claim C7. Take any row of the sheet that has cells, whose status cell is absent, empty
  or blank, and whose URL cell is accepted by the Classifier (so it is not empty). The
  worklist then has the entry for it: the URL cell without surrounding white space (the
  cell itself when it neither starts nor ends with white space), with the 1-based
  position of the row as row index. The row indices of the worklist are
  strictly increasing, so the entries stand in the order of their rows. For the sheet
  with the single row \<^verbatim>\<open>("https://youtu.be/abc", "", "")\<close> the worklist is exactly the one
  entry with that URL and row index 1.
\<close>

theorem get_new_urls_includes:
  assumes "sheet_get_all_values e = Inr all_values"
    and "i < length all_values"
    and "all_values ! i \<noteq> []"
    and "length (all_values ! i) \<le> 2 \<or> py_strip (all_values ! i ! 2) = ''''"
    and "is_supported_video_url (all_values ! i ! 0)"
  shows "(\<exists>worklist. fst (get_new_urls e w) = Inr worklist
      \<and> \<lparr>data_url = py_strip (all_values ! i ! 0), data_row = i + 1\<rparr> \<in> set worklist
      \<and> sorted_wrt (<) (map data_row worklist))
    \<and> (\<not> py_isspace (hd (all_values ! i ! 0)) \<and> \<not> py_isspace (last (all_values ! i ! 0))
         \<longrightarrow> py_strip (all_values ! i ! 0) = all_values ! i ! 0)"
proof -
  have "all_values ! i ! 0 \<noteq> []"
    using assms(5) not_supported_empty by auto
  then have unpadded:
    "\<not> py_isspace (hd (all_values ! i ! 0)) \<and> \<not> py_isspace (last (all_values ! i ! 0))
       \<longrightarrow> py_strip (all_values ! i ! 0) = all_values ! i ! 0"
    using strip_unpadded by blast
  have "row_entry (1 + i) (all_values ! i)
      = Some \<lparr>data_url = py_strip (all_values ! i ! 0), data_row = i + 1\<rparr>"
    using assms(3,4,5) by (auto simp: row_entry_def)
  then have "\<lparr>data_url = py_strip (all_values ! i ! 0), data_row = i + 1\<rparr>
      \<in> set (scan_rows 1 all_values [])"
    using assms(2) scan_rows_mem by blast
  moreover have "sorted_wrt (<) (map data_row (scan_rows 1 all_values []))"
    using scan_rows_sorted by blast
  ultimately show ?thesis using assms(1) unpadded by (simp add: get_new_urls_fst)
qed

theorem get_new_urls_includes_witness:
  "sheet_get_all_values demo_env = Inr [[''https://youtu.be/abc'', '''', '''']]
   \<and> (0::nat) < length [[''https://youtu.be/abc'', '''', '''']]
   \<and> [[''https://youtu.be/abc'', '''', '''']] ! 0 \<noteq> []
   \<and> py_strip ([[''https://youtu.be/abc'', '''', '''']] ! 0 ! 2) = ''''
   \<and> is_supported_video_url ([[''https://youtu.be/abc'', '''', '''']] ! 0 ! 0)
   \<and> \<not> py_isspace (hd ([[''https://youtu.be/abc'', '''', '''']] ! 0 ! 0))
   \<and> \<not> py_isspace (last ([[''https://youtu.be/abc'', '''', '''']] ! 0 ! 0))
   \<and> py_strip ([[''https://youtu.be/abc'', '''', '''']] ! 0 ! 0) = ''https://youtu.be/abc''
   \<and> (\<exists>worklist. fst (get_new_urls demo_env empty_world) = Inr worklist
        \<and> \<lparr>data_url = ''https://youtu.be/abc'', data_row = 1\<rparr> \<in> set worklist
        \<and> sorted_wrt (<) (map data_row worklist))
   \<and> fst (get_new_urls demo_env empty_world)
       = Inr [\<lparr>data_url = ''https://youtu.be/abc'', data_row = 1\<rparr>]"
proof -
  let ?rows = "[[''https://youtu.be/abc'', '''', '''']]"
  have 1: "sheet_get_all_values demo_env = Inr ?rows" by (simp add: demo_env_def)
  have 2: "0 < length ?rows" by simp
  have 3: "?rows ! 0 \<noteq> []" by simp
  have 4: "py_strip (?rows ! 0 ! 2) = ''''" by (simp add: py_strip_def)
  then have st: "length (?rows ! 0) \<le> 2 \<or> py_strip (?rows ! 0 ! 2) = ''''" by blast
  have 5: "is_supported_video_url (?rows ! 0 ! 0)"
    by (simp add: is_supported_video_url_def supported_domains_def py_lower_def lower_char_def
        ascii_uppercase_def ascii_lowercase_def latin1_uppercase_def
        latin1_lowercase_def)
  have h: "\<not> py_isspace (hd (?rows ! 0 ! 0))" and l: "\<not> py_isspace (last (?rows ! 0 ! 0))"
    by (simp_all add: py_isspace_def py_whitespace_def)
  note incl = get_new_urls_includes [OF 1 2 3 st 5, of empty_world]
  have 6: "py_strip (?rows ! 0 ! 0) = ''https://youtu.be/abc''"
    using incl h l by simp
  have "row_entry 1 (?rows ! 0) = Some \<lparr>data_url = ''https://youtu.be/abc'', data_row = 1\<rparr>"
    using 4 5 6 by (simp add: row_entry_def)
  then have "scan_rows 1 ?rows [] = [\<lparr>data_url = ''https://youtu.be/abc'', data_row = 1\<rparr>]"
    by (simp add: scan_rows_Cons del: scan_rows.simps(2))
  then have 7: "fst (get_new_urls demo_env empty_world)
       = Inr [\<lparr>data_url = ''https://youtu.be/abc'', data_row = 1\<rparr>]"
    using 1 by (simp add: get_new_urls_fst)
  have 8: "\<exists>worklist. fst (get_new_urls demo_env empty_world) = Inr worklist
        \<and> \<lparr>data_url = ''https://youtu.be/abc'', data_row = 1\<rparr> \<in> set worklist
        \<and> sorted_wrt (<) (map data_row worklist)"
    using incl 6 by simp
  show ?thesis using 1 2 3 4 5 h l 6 7 8 by blast
qed

text \<open>
  A URL cell padded with a no-break space (U+00A0) and a next-line character (U+0085)
  gives the entry with the bare URL.
\<close>

lemma get_new_urls_padded_url:
  "fst (get_new_urls
         (demo_env\<lparr>sheet_get_all_values :=
            Inr [[[CHR 0xA0] @ ''https://youtu.be/abc'' @ [CHR 0x85], '''', '''']]\<rparr>)
         empty_world)
     = Inr [\<lparr>data_url = ''https://youtu.be/abc'', data_row = 1\<rparr>]"
proof -
  have "row_entry 1 [[CHR 0xA0] @ ''https://youtu.be/abc'' @ [CHR 0x85], '''', '''']
      = Some \<lparr>data_url = ''https://youtu.be/abc'', data_row = 1\<rparr>"
    by (simp add: row_entry_def py_strip_def py_isspace_def py_whitespace_def
        is_supported_video_url_def supported_domains_def py_lower_def lower_char_def
        ascii_uppercase_def ascii_lowercase_def latin1_uppercase_def latin1_lowercase_def)
  then have "scan_rows 1 [[[CHR 0xA0] @ ''https://youtu.be/abc'' @ [CHR 0x85], '''', '''']] []
      = [\<lparr>data_url = ''https://youtu.be/abc'', data_row = 1\<rparr>]"
    by (simp add: scan_rows_Cons del: scan_rows.simps(2))
  then show ?thesis by (simp add: get_new_urls_fst)
qed

section \<open>Processor: the status values of one attempt\<close>

text \<open>
  Claim C2. One call of \<^const>\<open>process_url\<close> makes exactly three cell writes for its row,
  whatever the collaborators do: first \<^verbatim>\<open>PROCESSING\<close> to column C, with no write of column
  B before it; then a non-empty result text to column B (cut by the Status Writer when it
  is too long) and one terminal status to column C. The terminal status is \<^verbatim>\<open>COMPLETED\<close>,
  the result being the text the language model returned in this attempt, when the call
  returns \<^term>\<open>True\<close>; it is \<^verbatim>\<open>ERROR\<close>, the result being a message that starts with
  \<^verbatim>\<open>Error: \<close>, when the call returns \<^term>\<open>False\<close>. So the status values sent to the row are
  \<^verbatim>\<open>PROCESSING\<close> and then one terminal status: never the empty status, and never
  \<^verbatim>\<open>PROCESSING\<close> after the terminal status.
\<close>

theorem process_url_status_sequence:
  "\<exists>terminal result.
     cell_writes (snd (process_url e ud w)) =
       cell_writes w @
         [(''C'' @ str_nat (data_row ud), ''PROCESSING''),
          (''B'' @ str_nat (data_row ud), truncate_result result),
          (''C'' @ str_nat (data_row ud), terminal)]
     \<and> status_writes (data_row ud) (snd (process_url e ud w)) =
         status_writes (data_row ud) w @ [''PROCESSING'', terminal]
     \<and> result \<noteq> ''''
     \<and> (fst (process_url e ud w) = Inr True \<and> terminal = ''COMPLETED''
          \<and> (\<exists>contents.
                gemini_calls (snd (process_url e ud w)) = gemini_calls w @ [(contents, prompt e)]
                \<and> genai_generate_content e (length (gemini_calls w)) contents (prompt e)
                    = Inr (Parsed result))
         \<or> fst (process_url e ud w) = Inr False \<and> terminal = ''ERROR''
          \<and> (\<exists>m. result = ''Error: '' @ m))"
proof -
  define tr where "tr = fetched_text (supadata_transcript e (length (transcript_calls w)) (data_url ud))"
  define an where "an = summary_text (genai_generate_content e (length (gemini_calls w))
                   (truncate_transcript (the tr)) (prompt e))"
  define terminal where "terminal = (if falsy tr \<or> falsy an then ''ERROR'' else ''COMPLETED'')"
  define result where "result =
     (if falsy tr then ''Error: Could not retrieve transcript using Supadata''
      else if falsy an then ''Error: Gemini analysis failed'' else the an)"
  note c = process_url_char [of e ud w, folded tr_def, folded an_def, folded terminal_def result_def]
  have w: "cell_writes (snd (process_url e ud w)) =
       cell_writes w @
         [(''C'' @ str_nat (data_row ud), ''PROCESSING''),
          (''B'' @ str_nat (data_row ud), truncate_result result),
          (''C'' @ str_nat (data_row ud), terminal)]"
    using c by (intro cell_writes_attempt) blast
  have s: "status_writes (data_row ud) (snd (process_url e ud w)) =
         status_writes (data_row ud) w @ [''PROCESSING'', terminal]"
    using w by (rule status_writes_attempt)
  have ne: "result \<noteq> ''''"
    by (cases an) (auto simp: result_def)
  have "fst (process_url e ud w) = Inr True \<and> terminal = ''COMPLETED''
          \<and> (\<exists>contents.
                gemini_calls (snd (process_url e ud w)) = gemini_calls w @ [(contents, prompt e)]
                \<and> genai_generate_content e (length (gemini_calls w)) contents (prompt e)
                    = Inr (Parsed result))
         \<or> fst (process_url e ud w) = Inr False \<and> terminal = ''ERROR''
          \<and> (\<exists>m. result = ''Error: '' @ m)"
  proof (cases "falsy tr \<or> falsy an")
    case True
    then show ?thesis using c by (auto simp: terminal_def result_def)
  next
    case False
    then obtain a where a: "an = Some a" "a \<noteq> ''''" using falsy_iff by blast
    then have "genai_generate_content e (length (gemini_calls w))
        (truncate_transcript (the tr)) (prompt e) = Inr (Parsed a)"
      by (auto simp: an_def summary_text_def split: sum.splits generate_response.splits)
    then show ?thesis using c False a by (auto simp: terminal_def result_def)
  qed
  with w s ne show ?thesis by blast
qed

theorem process_url_status_sequence_witness:
  "status_writes 1 (snd (process_url demo_env demo_entry empty_world)) = [''PROCESSING'', ''COMPLETED'']
   \<and> fst (process_url demo_env demo_entry empty_world) = Inr True
   \<and> cell_writes (snd (process_url demo_env demo_entry empty_world)) =
       [(''C1'', ''PROCESSING''), (''B1'', ''summary''), (''C1'', ''COMPLETED'')]"
proof -
  have t: "fst (process_url demo_env demo_entry empty_world) = Inr True"
    using process_url_char [of demo_env demo_entry empty_world]
    by (simp add: demo_env_def demo_entry_def empty_world_def fetched_text_def summary_text_def)
  have g: "genai_generate_content demo_env n c p = Inr (Parsed r) \<longleftrightarrow> r = ''summary''" for n c p r
    by (auto simp: demo_env_def)
  have "status_writes 1 empty_world = []" "cell_writes empty_world = []"
    by (simp_all add: status_writes_def cell_writes_def empty_world_def)
  then show ?thesis
    using t process_url_status_sequence [of demo_env demo_entry empty_world]
    by (auto simp: g demo_entry_def str_nat_1 truncate_result_short)
qed

section \<open>Processor: failures are turned into the ERROR status\<close>




end
